theory Spec2Isabelle
  imports Complex_Main "HOL-Library.Word" "HOL-Library.Log_Nat"
begin

section \<open>The progress bar of package utilhub (progressBar.go)\<close>

text \<open>
  The theory embeds \<^verbatim>\<open>src/utilhub/progressBar.go\<close>: the struct \<^verbatim>\<open>ProgressBar\<close>, its
  constructor \<^verbatim>\<open>NewProgressBar\<close> with the four functional options, the update operations
  \<^verbatim>\<open>UpdateBar\<close> and \<^verbatim>\<open>AddSpecificTimes\<close>, \<^verbatim>\<open>Complete\<close> and \<^verbatim>\<open>Report\<close>.

  Conventions of the embedding.
  \<^item> \<^verbatim>\<open>uint32\<close> is \<open>32 word\<close>: \<open>+\<close> wraps as \<^verbatim>\<open>atomic.AddUint32\<close> does, \<open>div\<close>, \<open><\<close> and
    \<open>\<le>\<close> are unsigned.
  \<^item> \<^verbatim>\<open>float64\<close> is the set of reals with a significand of 53 bits. Every operation is
    the exact operation followed by \<open>round64\<close>, rounding to the nearest such value, ties
    to the even significand. The exponent range is not modelled (no infinities, no
    subnormals): the values that arise are 0 or lie between \<open>2\<^sup>-\<^sup>3\<^sup>2\<close> and \<open>2\<^sup>9\<^sup>6\<close> in
    magnitude. No division by zero arises: both update operations return early when
    \<^verbatim>\<open>total\<close> is 0.
  \<^item> Go's \<^verbatim>\<open>int\<close> is taken to be 64 bits wide. A field of that type is an \<open>int\<close>. The
    conversion \<^verbatim>\<open>int(f)\<close> truncates towards zero; outside the range of \<^verbatim>\<open>int64\<close> its result
    depends on the implementation, and the model stops there with the outcome
    \<open>ConversionOutOfRange\<close>. \<^verbatim>\<open>time.Duration\<close> is \<^verbatim>\<open>int64\<close> and its product wraps. The
    arithmetic on widths in \<^verbatim>\<open>Report\<close> is the one of \<open>int\<close>: it is the code's as long as the
    width sum does not wrap, and the properties of the table are stated for widths up to
    \<open>1000000\<close>.
  \<^item> The calls are executed one after the other (the mutex and the atomics make each
    update a unit), and each call is given the instant \<open>now\<close> at which it runs, in
    nanoseconds. A timer channel made by \<^verbatim>\<open>time.After(d)\<close> at instant \<open>t\<close> is the deadline
    \<open>t + d\<close>; it is ready to be received from when \<open>deadline \<le> now\<close>. A nil channel is
    never ready.
  \<^item> The print channel is unbuffered; a listener (\<^verbatim>\<open>ListenPrinter\<close>) is taken to be
    receiving, so a send on an open channel completes and the frame is appended to the
    channel's history. A run-time panic, and a send that can never complete, is a value
    of type \<open>failure\<close>.
  \<^item> An option is a function that returns the changed bar or panics; the nil option is
    the one whose call panics.
  \<^item> What the package takes from elsewhere (the zone database behind
    \<^verbatim>\<open>time.LoadLocation\<close>, \<^verbatim>\<open>Time.Format\<close>, \<^verbatim>\<open>Duration.String\<close>, and the ANSI colour
    constants \<^verbatim>\<open>BrightCyan\<close>, \<^verbatim>\<open>Reset\<close> and so on, which \<^verbatim>\<open>progressBar.go\<close> uses but does not
    declare) is a parameter, the record \<open>env\<close>.
\<close>

subsection \<open>Data\<close>

type_synonym u32 = "32 word"

text \<open>A resolved \<^verbatim>\<open>*time.Location\<close>.\<close>

datatype location = Location string

text \<open>\<^verbatim>\<open>time.Time\<close>: an instant (nanoseconds) and the location it is shown in (nil is UTC).\<close>

record gotime =
  instant :: int
  zone :: "location option"

definition zeroTime :: gotime where
  "zeroTime = \<lparr>instant = 0, zone = None\<rparr>"

text \<open>\<^verbatim>\<open>barMessage\<close>, the frame passed through the print channel.\<close>

record barMessage =
  filledLength :: int
  percentage :: real

datatype failure =
    SendOnClosedChannel
  | SendOnNilChannel
  | CloseOfClosedChannel
  | CloseOfNilChannel
  | MissingLocation
  | NegativeRepeatCount
  | NilFunctionCall
  | ConversionOutOfRange

text \<open>A channel: nil, or made, with the messages sent so far (oldest first) and whether
  it has been closed.\<close>

datatype 'a chan = NilChan | Chan "'a list" bool

fun send :: "'a chan \<Rightarrow> 'a \<Rightarrow> failure + 'a chan" where
  "send NilChan m = Inl SendOnNilChannel"
| "send (Chan ms True) m = Inl SendOnClosedChannel"
| "send (Chan ms False) m = Inr (Chan (ms @ [m]) False)"

fun close :: "'a chan \<Rightarrow> failure + 'a chan" where
  "close NilChan = Inl CloseOfNilChannel"
| "close (Chan ms True) = Inl CloseOfClosedChannel"
| "close (Chan ms False) = Inr (Chan ms True)"

fun sent :: "'a chan \<Rightarrow> 'a list" where
  "sent NilChan = []"
| "sent (Chan ms c) = ms"

fun closed :: "'a chan \<Rightarrow> bool" where
  "closed NilChan = False"
| "closed (Chan ms c) = c"

text \<open>The struct \<^verbatim>\<open>ProgressBar\<close>. The fields \<^verbatim>\<open>total\<close> and \<^verbatim>\<open>complete\<close> carry a suffix
  (the names are taken in HOL); the mutex has no counterpart in a sequential model.\<close>

record ProgressBar =
  name :: string
  total_bar :: u32
  barLength :: int
  precision :: int
  currentProcess :: u32
  lastFilledLength :: int
  timezone :: string
  location :: "location option"
  startTime :: gotime
  endTime :: gotime
  complete_bar :: bool
  updateInterval :: int
  ticker :: "int option"
  barColor :: string
  resetColor :: string
  printChannel :: "barMessage chan"
  finishBar :: "unit chan"

text \<open>The surroundings of the package.\<close>

record env =
  LoadLocation :: "string \<Rightarrow> string + location"
  FormatRFC1123 :: "gotime \<Rightarrow> string"
  DurationString :: "int \<Rightarrow> string"
  BrightCyan :: string
  BrightYellow :: string
  BrightMagenta :: string
  BrightRed :: string
  DarkYellow :: string
  Reset :: string

subsection \<open>Options and construction\<close>

text \<open>\<^verbatim>\<open>type BarOption func(*ProgressBar)\<close>: an option is called on the bar; the call
  returns the bar as the option leaves it, or panics.\<close>

type_synonym BarOption = "ProgressBar \<Rightarrow> failure + ProgressBar"

definition WithTracking :: "int \<Rightarrow> BarOption" where
  "WithTracking p = (\<lambda>pb. Inr (pb\<lparr>precision := p\<rparr>))"

definition WithTimeZone :: "string \<Rightarrow> BarOption" where
  "WithTimeZone timeZoneName = (\<lambda>pb. Inr (pb\<lparr>timezone := timeZoneName\<rparr>))"

definition WithTimeControl :: "int \<Rightarrow> BarOption" where
  "WithTimeControl i = (\<lambda>pb. Inr (pb\<lparr>updateInterval := i\<rparr>))"

definition WithDisplay :: "string \<Rightarrow> BarOption" where
  "WithDisplay color = (\<lambda>pb. Inr (pb\<lparr>barColor := color\<rparr>))"

text \<open>The nil value of type \<^verbatim>\<open>BarOption\<close>: calling it is a nil dereference.\<close>

definition nilOption :: BarOption where
  "nilOption = (\<lambda>pb. Inl NilFunctionCall)"

text \<open>The struct literal of \<^verbatim>\<open>NewProgressBar\<close>; the fields it leaves out have Go's zero
  values.\<close>

definition defaultBar :: "env \<Rightarrow> string \<Rightarrow> u32 \<Rightarrow> int \<Rightarrow> ProgressBar" where
  "defaultBar e nm tot len =
     \<lparr>name = nm, total_bar = tot, barLength = len,
      precision = 2, currentProcess = 0, lastFilledLength = 0,
      timezone = ''Asia/Shanghai'', location = None,
      startTime = zeroTime, endTime = zeroTime, complete_bar = False,
      updateInterval = 1000, ticker = None,
      barColor = BrightCyan e, resetColor = Reset e,
      printChannel = NilChan, finishBar = NilChan\<rparr>"

text \<open>\<^verbatim>\<open>for _, opt := range opts { opt(pb) }\<close>\<close>

fun applyOpts :: "ProgressBar \<Rightarrow> BarOption list \<Rightarrow> failure + ProgressBar" where
  "applyOpts pb [] = Inr pb"
| "applyOpts pb (opt # opts) =
     (case opt pb of Inl f \<Rightarrow> Inl f | Inr pb' \<Rightarrow> applyOpts pb' opts)"

text \<open>A value of \<^verbatim>\<open>int64\<close> after an operation that wraps.\<close>

definition wrap64 :: "int \<Rightarrow> int" where
  "wrap64 x = (x + 2 ^ 63) mod 2 ^ 64 - 2 ^ 63"

text \<open>\<^verbatim>\<open>time.After(time.Duration(updateInterval) * time.Millisecond)\<close> at instant \<open>now\<close>: the
  deadline of the timer.\<close>

definition timeAfter :: "int \<Rightarrow> int \<Rightarrow> int" where
  "timeAfter now interval = now + wrap64 (interval * 1000000)"

text \<open>\<^verbatim>\<open>NewProgressBar\<close> panics (\<open>Inl\<close>), returns nil and an error (\<open>Inr (Inl err)\<close>), or
  returns a bar and a nil error (\<open>Inr (Inr pb)\<close>).\<close>

definition NewProgressBar ::
  "env \<Rightarrow> int \<Rightarrow> string \<Rightarrow> u32 \<Rightarrow> int \<Rightarrow> BarOption list \<Rightarrow> failure + (string + ProgressBar)" where
  "NewProgressBar e now nm tot len opts =
     (case applyOpts (defaultBar e nm tot len) opts of
        Inl f \<Rightarrow> Inl f
      | Inr pb \<Rightarrow>
          (case LoadLocation e (timezone pb) of
             Inl err \<Rightarrow> Inr (Inl err)
           | Inr loc \<Rightarrow>
               Inr (Inr (pb\<lparr>location := Some loc,
                  startTime := \<lparr>instant = now, zone = Some loc\<rparr>,
                  ticker := (if updateInterval pb > 0
                             then Some (timeAfter now (updateInterval pb)) else ticker pb),
                  printChannel := Chan [] False,
                  finishBar := Chan [] False\<rparr>))))"

subsection \<open>Floating point\<close>

text \<open>The exponent of a positive real \<open>y\<close>: the \<open>e\<close> with \<open>2\<^sup>e \<le> y < 2\<^sup>e\<^sup>+\<^sup>1\<close>.\<close>

definition exponent :: "real \<Rightarrow> int" where
  "exponent y = (if 1 \<le> y then bitlen \<lfloor>y\<rfloor> - 1 else - bitlen (\<lceil>1 / y\<rceil> - 1))"

text \<open>The nearest integer, a tie going to the even one.\<close>

definition roundEven :: "real \<Rightarrow> int" where
  "roundEven r =
     (let f = \<lfloor>r\<rfloor>; d = r - of_int f
      in if d < 1 / 2 then f else if 1 / 2 < d then f + 1 else if even f then f else f + 1)"

text \<open>Rounding to \<^verbatim>\<open>float64\<close>: the nearest multiple of \<open>2\<^sup>e\<^sup>-\<^sup>5\<^sup>2\<close>, for the exponent \<open>e\<close> of
  the value.\<close>

definition round64 :: "real \<Rightarrow> real" where
  "round64 x =
     (if x = 0 then 0
      else let u = 2 powi (exponent \<bar>x\<bar> - 52)
           in sgn x * (of_int (roundEven (\<bar>x\<bar> / u)) * u))"

text \<open>\<^verbatim>\<open>float64(w)\<close> for a \<^verbatim>\<open>uint32\<close> (every such value is a float64) and \<^verbatim>\<open>float64(i)\<close> for
  an \<^verbatim>\<open>int\<close> (rounded beyond 53 bits).\<close>

definition float64_u32 :: "u32 \<Rightarrow> real" where
  "float64_u32 w = real (unat w)"

definition float64_int :: "int \<Rightarrow> real" where
  "float64_int i = round64 (of_int i)"

text \<open>\<^verbatim>\<open>int(f)\<close> for a float64 \<open>f\<close>: truncation towards zero, within the range of
  \<^verbatim>\<open>int64\<close>.\<close>

definition go_int :: "real \<Rightarrow> failure + int" where
  "go_int f =
     (let t = (if 0 \<le> f then \<lfloor>f\<rfloor> else \<lceil>f\<rceil>)
      in if - (2 ^ 63) \<le> t \<and> t < 2 ^ 63 then Inr t else Inl ConversionOutOfRange)"

subsection \<open>Updates\<close>

text \<open>\<^verbatim>\<open>if percentage > 100 { percentage = 100 }\<close>\<close>

definition capPercentage :: "real \<Rightarrow> real" where
  "capPercentage p = (if p > 100 then 100 else p)"

text \<open>The block shared by both update operations: when the fill length differs from the
  last one sent, the \<^verbatim>\<open>select\<close> sends a frame if the ticker is ready, and does nothing
  otherwise (the \<^verbatim>\<open>default\<close> case).\<close>

definition emit :: "int \<Rightarrow> ProgressBar \<Rightarrow> int \<Rightarrow> real \<Rightarrow> failure + ProgressBar" where
  "emit now pb fl pct =
     (if fl \<noteq> lastFilledLength pb then
        (case ticker pb of
           None \<Rightarrow> Inr pb
         | Some deadline \<Rightarrow>
             if deadline \<le> now then
               (case send (printChannel pb) \<lparr>filledLength = fl, percentage = pct\<rparr> of
                  Inl f \<Rightarrow> Inl f
                | Inr ch \<Rightarrow>
                    Inr (pb\<lparr>printChannel := ch,
                            lastFilledLength := fl,
                            ticker := Some (timeAfter now (updateInterval pb))\<rparr>))
             else Inr pb)
      else Inr pb)"

text \<open>The end of both update operations: at \<^verbatim>\<open>currentProcess == total\<close> the ticker is set
  to nil.\<close>

definition stopTicker :: "ProgressBar \<Rightarrow> ProgressBar" where
  "stopTicker pb = (if currentProcess pb = total_bar pb then pb\<lparr>ticker := None\<rparr> else pb)"

text \<open>\<^verbatim>\<open>progress := float64(pb.currentProcess) / float64(pb.total)\<close>\<close>

definition progressUpdateBar :: "ProgressBar \<Rightarrow> real" where
  "progressUpdateBar pb =
     round64 (float64_u32 (currentProcess pb) / float64_u32 (total_bar pb))"

text \<open>\<^verbatim>\<open>filledLength := int(progress * float64(pb.barLength))\<close> and
  \<^verbatim>\<open>percentage := progress * 100\<close> with its cap, the same in both update operations.\<close>

definition fillLength :: "real \<Rightarrow> int \<Rightarrow> failure + int" where
  "fillLength progress len = go_int (round64 (progress * float64_int len))"

definition percentOf :: "real \<Rightarrow> real" where
  "percentOf progress = capPercentage (round64 (progress * 100))"

definition UpdateBar :: "int \<Rightarrow> ProgressBar \<Rightarrow> failure + ProgressBar" where
  "UpdateBar now pb =
     (if currentProcess pb = total_bar pb then Inr pb
      else if currentProcess pb > total_bar pb then Inr (pb\<lparr>currentProcess := total_bar pb\<rparr>)
      else
        let pb1 = pb\<lparr>currentProcess := currentProcess pb + 1\<rparr>;
            progress = progressUpdateBar pb1
        in case fillLength progress (barLength pb1) of
             Inl f \<Rightarrow> Inl f
           | Inr fl \<Rightarrow>
               (case emit now pb1 fl (percentOf progress) of
                  Inl f \<Rightarrow> Inl f
                | Inr pb2 \<Rightarrow> Inr (stopTicker pb2)))"

text \<open>\<^verbatim>\<open>progress := float64(pb.currentProcess / pb.total)\<close>: the division is the one of
  \<^verbatim>\<open>uint32\<close>.\<close>

definition progressAddSpecificTimes :: "ProgressBar \<Rightarrow> real" where
  "progressAddSpecificTimes pb = float64_u32 (currentProcess pb div total_bar pb)"

definition AddSpecificTimes :: "int \<Rightarrow> u32 \<Rightarrow> ProgressBar \<Rightarrow> failure + ProgressBar" where
  "AddSpecificTimes now steps pb =
     (if currentProcess pb \<ge> total_bar pb then Inr (pb\<lparr>currentProcess := total_bar pb\<rparr>)
      else
        let pb1 = pb\<lparr>currentProcess := currentProcess pb + steps\<rparr>;
            progress = progressAddSpecificTimes pb1
        in case fillLength progress (barLength pb1) of
             Inl f \<Rightarrow> Inl f
           | Inr fl \<Rightarrow>
               (case emit now pb1 fl (percentOf progress) of
                  Inl f \<Rightarrow> Inl f
                | Inr pb2 \<Rightarrow> Inr (stopTicker pb2)))"

subsection \<open>Completion\<close>

text \<open>\<^verbatim>\<open>time.Now().In(loc)\<close>; \<^verbatim>\<open>In\<close> panics on a nil location.\<close>

definition nowIn :: "int \<Rightarrow> location option \<Rightarrow> failure + gotime" where
  "nowIn now l = (case l of None \<Rightarrow> Inl MissingLocation
                  | Some loc \<Rightarrow> Inr \<lparr>instant = now, zone = Some loc\<rparr>)"

text \<open>The inner block of \<^verbatim>\<open>Complete\<close>, run when \<^verbatim>\<open>currentProcess <= total\<close>.\<close>

definition finish :: "int \<Rightarrow> ProgressBar \<Rightarrow> failure + ProgressBar" where
  "finish now pb =
     (case nowIn now (location pb) of
        Inl f \<Rightarrow> Inl f
      | Inr t \<Rightarrow>
          (case send (printChannel pb) \<lparr>filledLength = barLength pb, percentage = 100\<rparr> of
             Inl f \<Rightarrow> Inl f
           | Inr ch \<Rightarrow>
               Inr (pb\<lparr>endTime := t, currentProcess := total_bar pb,
                       printChannel := ch, complete_bar := True\<rparr>)))"

definition Complete :: "int \<Rightarrow> ProgressBar \<Rightarrow> failure + ProgressBar" where
  "Complete now pb =
     (if complete_bar pb = False then
        (case (if currentProcess pb \<le> total_bar pb then finish now pb else Inr pb) of
           Inl f \<Rightarrow> Inl f
         | Inr pb1 \<Rightarrow>
             (case close (printChannel pb1) of
                Inl f \<Rightarrow> Inl f
              | Inr ch \<Rightarrow> Inr (pb1\<lparr>ticker := None, printChannel := ch\<rparr>)))
      else Inr pb)"

subsection \<open>Sequences of calls\<close>

datatype call =
    CallUpdateBar int
  | CallAddSpecificTimes int u32
  | CallComplete int

fun step :: "call \<Rightarrow> ProgressBar \<Rightarrow> failure + ProgressBar" where
  "step (CallUpdateBar now) pb = UpdateBar now pb"
| "step (CallAddSpecificTimes now steps) pb = AddSpecificTimes now steps pb"
| "step (CallComplete now) pb = Complete now pb"

text \<open>The calls of a list, in order; the first failure ends the run.\<close>

fun run :: "call list \<Rightarrow> ProgressBar \<Rightarrow> failure + ProgressBar" where
  "run [] pb = Inr pb"
| "run (c # cs) pb = (case step c pb of Inl f \<Rightarrow> Inl f | Inr pb' \<Rightarrow> run cs pb')"

subsection \<open>The report\<close>

text \<open>\<^verbatim>\<open>strings.Repeat\<close> panics on a negative count.\<close>

definition Repeat :: "string \<Rightarrow> int \<Rightarrow> failure + string" where
  "Repeat s count =
     (if count < 0 then Inl NegativeRepeatCount else Inr (concat (replicate (nat count) s)))"

text \<open>The verb \<^verbatim>\<open>%-*s\<close>: the value, then spaces up to the width (a negative width
  counts as its absolute value). A width beyond a million is refused by \<^verbatim>\<open>fmt\<close>: it
  writes \<^verbatim>\<open>%!(BADWIDTH)\<close> and then the value without padding. The strings are taken to be
  ASCII, so that the number of characters is the number of bytes.\<close>

definition padRight :: "int \<Rightarrow> string \<Rightarrow> string" where
  "padRight w s =
     (if 1000000 < \<bar>w\<bar> then ''%!(BADWIDTH)'' @ s
      else s @ replicate (nat (\<bar>w\<bar> - int (length s))) (CHR '' ''))"

text \<open>The digits of a number, as the verb \<^verbatim>\<open>%d\<close> prints an unsigned value.\<close>

fun decimal :: "nat \<Rightarrow> string" where
  "decimal n =
     (if n < 10 then [''0123456789'' ! n]
      else decimal (n div 10) @ [''0123456789'' ! (n mod 10)])"

declare decimal.simps [simp del]

text \<open>Go's \<^verbatim>\<open>/\<close> on \<^verbatim>\<open>int\<close> truncates towards zero.\<close>

definition go_quot :: "int \<Rightarrow> int \<Rightarrow> int" where
  "go_quot a b = sgn a * sgn b * (\<bar>a\<bar> div \<bar>b\<bar>)"

text \<open>One \<^verbatim>\<open>fmt.Printf("%s| %-*s | %-*s |%s\n", color, fieldWidth, field, valueWidth, value, Reset)\<close>;
  a line of the output is kept without its final newline.\<close>

definition tableRow :: "env \<Rightarrow> string \<Rightarrow> int \<Rightarrow> string \<Rightarrow> int \<Rightarrow> string \<Rightarrow> string" where
  "tableRow e color fieldWidth field valueWidth val =
     color @ ''| '' @ padRight fieldWidth field @ '' | '' @ padRight valueWidth val @ '' |'' @ Reset e"

text \<open>\<^verbatim>\<open>Report\<close> returns the error (\<open>None\<close> is nil), the lines written to standard output,
  and the bar as the call leaves it.\<close>

definition Report ::
  "env \<Rightarrow> int \<Rightarrow> ProgressBar \<Rightarrow> failure + (string option \<times> string list \<times> ProgressBar)" where
  "Report e valueWidth0 pb =
     (if \<not> complete_bar pb then Inr (Some ''progress is not yet complete'', [], pb)
      else
        let elapsed = instant (endTime pb) - instant (startTime pb);
            fieldWidth = 20;
            valueWidth = (if valueWidth0 < 32 then 32 else valueWidth0);
            totalWidth = fieldWidth + valueWidth + 7
        in case Repeat ''='' totalWidth of Inl f \<Rightarrow> Inl f | Inr eqs \<Rightarrow>
          (case Repeat ''-'' totalWidth of Inl f \<Rightarrow> Inl f | Inr dashes \<Rightarrow>
            (let border = BrightYellow e @ eqs @ Reset e;
                 divider = BrightYellow e @ dashes @ Reset e;
                 title = ''Progress Bar Report'';
                 titleWidth = int (length title);
                 padding = go_quot (totalWidth - titleWidth) 2
             in case Repeat '' '' padding of Inl f \<Rightarrow> Inl f | Inr lpad \<Rightarrow>
               (case Repeat '' '' (padding - 1) of Inl f \<Rightarrow> Inl f | Inr rpad \<Rightarrow>
                  Inr (None,
                    [BrightMagenta e @ border @ Reset e,
                     BrightMagenta e @ ''|'' @ lpad @ title @ rpad @ ''|'' @ Reset e,
                     BrightMagenta e @ border @ Reset e,
                     tableRow e (BrightRed e) fieldWidth ''Field'' valueWidth ''Value'',
                     BrightRed e @ divider @ Reset e,
                     tableRow e (DarkYellow e) fieldWidth ''Task Name'' valueWidth (name pb),
                     tableRow e (DarkYellow e) fieldWidth ''Start Time'' valueWidth
                       (FormatRFC1123 e (startTime pb)),
                     tableRow e (DarkYellow e) fieldWidth ''End Time'' valueWidth
                       (FormatRFC1123 e (endTime pb)),
                     tableRow e (DarkYellow e) fieldWidth ''Elapsed Time'' valueWidth
                       (DurationString e elapsed),
                     tableRow e (DarkYellow e) fieldWidth ''Total Tasks'' valueWidth
                       (decimal (unat (total_bar pb))),
                     tableRow e (DarkYellow e) fieldWidth ''Completed Tasks'' valueWidth
                       (decimal (unat (currentProcess pb))),
                     BrightMagenta e @ border @ Reset e],
                    pb)))))"

text \<open>Lists of calls of one kind: \<^verbatim>\<open>AddSpecificTimes(steps)\<close> at the given instants, and
  \<^verbatim>\<open>UpdateBar()\<close> at the given instants.\<close>

fun addCalls :: "(int \<times> u32) list \<Rightarrow> call list" where
  "addCalls [] = []"
| "addCalls ((now, steps) # rest) = CallAddSpecificTimes now steps # addCalls rest"

fun updateCalls :: "int list \<Rightarrow> call list" where
  "updateCalls [] = []"
| "updateCalls (now # rest) = CallUpdateBar now # updateCalls rest"

text \<open>The options the package offers, by name, and the option each one stands for.\<close>

datatype optionSpec =
    Tracking int
  | TimeZone string
  | TimeControl int
  | Display string

fun optionOf :: "optionSpec \<Rightarrow> BarOption" where
  "optionOf (Tracking p) = WithTracking p"
| "optionOf (TimeZone z) = WithTimeZone z"
| "optionOf (TimeControl i) = WithTimeControl i"
| "optionOf (Display c) = WithDisplay c"

text \<open>What a list of options asks for, read off the list alone: for each of the four
  settings the values given for it, in order, and of these the last one, or the default
  when there is none.\<close>

definition trackings :: "optionSpec list \<Rightarrow> int list" where
  "trackings specs = concat (map (\<lambda>s. case s of Tracking p \<Rightarrow> [p] | _ \<Rightarrow> []) specs)"

definition zones :: "optionSpec list \<Rightarrow> string list" where
  "zones specs = concat (map (\<lambda>s. case s of TimeZone z \<Rightarrow> [z] | _ \<Rightarrow> []) specs)"

definition intervals :: "optionSpec list \<Rightarrow> int list" where
  "intervals specs = concat (map (\<lambda>s. case s of TimeControl i \<Rightarrow> [i] | _ \<Rightarrow> []) specs)"

definition colours :: "optionSpec list \<Rightarrow> string list" where
  "colours specs = concat (map (\<lambda>s. case s of Display c \<Rightarrow> [c] | _ \<Rightarrow> []) specs)"

definition lastOr :: "'a \<Rightarrow> 'a list \<Rightarrow> 'a" where
  "lastOr d xs = (if xs = [] then d else last xs)"

text \<open>The fill lengths of the frames sent so far, oldest first.\<close>

definition fills :: "ProgressBar \<Rightarrow> int list" where
  "fills pb = map filledLength (sent (printChannel pb))"

text \<open>\<^verbatim>\<open>Report\<close> on the bar a run ends with.\<close>

definition reportAfter ::
  "env \<Rightarrow> int \<Rightarrow> failure + ProgressBar \<Rightarrow> failure + (string option \<times> string list \<times> ProgressBar)" where
  "reportAfter e valueWidth r = (case r of Inl f \<Rightarrow> Inl f | Inr pb \<Rightarrow> Report e valueWidth pb)"

subsection \<open>Sample surroundings\<close>

text \<open>A small zone database with two zones, stand-ins for the formatting functions of
  package \<^verbatim>\<open>time\<close>, and the colour codes without their escape character. \<open>demoBar tot\<close>
  is the bar that \<^verbatim>\<open>NewProgressBar("index", tot, 40)\<close> returns there at instant 0.\<close>

definition demoEnv :: env where
  "demoEnv =
     \<lparr>LoadLocation = (\<lambda>z. if z = ''Asia/Shanghai'' \<or> z = ''UTC'' then Inr (Location z)
                           else Inl (''unknown time zone '' @ z)),
      FormatRFC1123 = (\<lambda>t. decimal (nat (instant t))),
      DurationString = (\<lambda>d. decimal (nat d) @ ''ns''),
      BrightCyan = ''[96m'', BrightYellow = ''[93m'', BrightMagenta = ''[95m'',
      BrightRed = ''[91m'', DarkYellow = ''[33m'', Reset = ''[0m''\<rparr>"

definition demoBar :: "u32 \<Rightarrow> ProgressBar" where
  "demoBar tot =
     \<lparr>name = ''index'', total_bar = tot, barLength = 40,
      precision = 2, currentProcess = 0, lastFilledLength = 0,
      timezone = ''Asia/Shanghai'', location = Some (Location ''Asia/Shanghai''),
      startTime = \<lparr>instant = 0, zone = Some (Location ''Asia/Shanghai'')\<rparr>,
      endTime = zeroTime, complete_bar = False,
      updateInterval = 1000, ticker = Some 1000000000,
      barColor = ''[96m'', resetColor = ''[0m'',
      printChannel = Chan [] False, finishBar = Chan [] False\<rparr>"

section \<open>Properties\<close>

subsection \<open>Rounding\<close>

text \<open>The facts that evaluate the floating-point operations on numerals.\<close>

lemmas float_eval = round64_def exponent_def compute_bitlen roundEven_def Let_def

lemma exponent_lower:
  assumes "0 < y"
  shows "2 powi exponent y \<le> y"
proof (cases "1 \<le> y")
  case True
  then have p: "0 < \<lfloor>y\<rfloor>" by simp
  have b: "0 \<le> bitlen \<lfloor>y\<rfloor> - 1"
    using p bitlen_ge_iff_power [of 1 "\<lfloor>y\<rfloor>"] by simp
  have "(2 :: int) ^ nat (bitlen \<lfloor>y\<rfloor> - 1) \<le> \<lfloor>y\<rfloor>"
    using bitlen_bounds [OF p] by simp
  then have "real_of_int (2 ^ nat (bitlen \<lfloor>y\<rfloor> - 1)) \<le> real_of_int \<lfloor>y\<rfloor>"
    by (simp only: of_int_le_iff)
  also have "\<dots> \<le> y" by simp
  finally have "2 ^ nat (bitlen \<lfloor>y\<rfloor> - 1) \<le> y" by simp
  then show ?thesis using True b by (simp add: exponent_def power_int_def)
next
  case False
  then have y1: "y < 1" by simp
  let ?N = "\<lceil>1 / y\<rceil>"
  have "1 < 1 / y" using assms y1 by simp
  then have N2: "1 < ?N" by (simp add: less_ceiling_iff)
  then have p: "0 < ?N - 1" by simp
  have "?N - 1 < 2 ^ nat (bitlen (?N - 1))" using bitlen_bounds [OF p] by simp
  then have "?N \<le> 2 ^ nat (bitlen (?N - 1))" by simp
  then have "real_of_int ?N \<le> real_of_int (2 ^ nat (bitlen (?N - 1)))"
    by (simp only: of_int_le_iff)
  moreover have "1 / y \<le> real_of_int ?N" by (rule le_of_int_ceiling)
  ultimately have "1 / y \<le> real_of_int (2 ^ nat (bitlen (?N - 1)))" by (rule order_trans [rotated])
  then have "1 / y \<le> 2 ^ nat (bitlen (?N - 1))" by (simp only: of_int_power of_int_numeral)
  then have "1 \<le> 2 ^ nat (bitlen (?N - 1)) * y"
    using assms by (simp add: field_simps)
  then have "1 / 2 ^ nat (bitlen (?N - 1)) \<le> y"
    by (simp add: field_simps)
  moreover have "(2 :: real) powi (- bitlen (?N - 1)) = 1 / 2 ^ nat (bitlen (?N - 1))"
    using bitlen_nonneg [of "?N - 1"] by (simp add: power_int_minus_divide power_int_def power_one_over)
  ultimately show ?thesis
    using False by (simp add: exponent_def)
qed

lemma exponent_upper:
  assumes "0 < y"
  shows "y < 2 powi (exponent y + 1)"
proof (cases "1 \<le> y")
  case True
  then have p: "0 < \<lfloor>y\<rfloor>" by simp
  have "\<lfloor>y\<rfloor> < 2 ^ nat (bitlen \<lfloor>y\<rfloor>)" using bitlen_bounds [OF p] by simp
  then have "\<lfloor>y\<rfloor> + 1 \<le> 2 ^ nat (bitlen \<lfloor>y\<rfloor>)" by simp
  then have "real_of_int (\<lfloor>y\<rfloor> + 1) \<le> real_of_int (2 ^ nat (bitlen \<lfloor>y\<rfloor>))"
    by (simp only: of_int_le_iff)
  moreover have "y < real_of_int (\<lfloor>y\<rfloor> + 1)" by linarith
  ultimately have "y < real_of_int (2 ^ nat (bitlen \<lfloor>y\<rfloor>))" by linarith
  then have "y < 2 ^ nat (bitlen \<lfloor>y\<rfloor>)" by (simp only: of_int_power of_int_numeral)
  then show ?thesis
    using True bitlen_nonneg [of "\<lfloor>y\<rfloor>"] by (simp add: exponent_def power_int_def)
next
  case False
  then have y1: "y < 1" by simp
  let ?N = "\<lceil>1 / y\<rceil>"
  let ?k = "bitlen (?N - 1)"
  have "1 < 1 / y" using assms y1 by simp
  then have N2: "1 < ?N" by (simp add: less_ceiling_iff)
  then have p: "0 < ?N - 1" by simp
  have k1: "1 \<le> ?k" using p bitlen_ge_iff_power [of 1 "?N - 1"] by simp
  have "2 ^ nat (?k - 1) \<le> ?N - 1" using bitlen_bounds [OF p] by simp
  then have "real_of_int (2 ^ nat (?k - 1)) \<le> real_of_int (?N - 1)"
    by (simp only: of_int_le_iff)
  moreover have "real_of_int (?N - 1) < 1 / y" by linarith
  ultimately have "real_of_int (2 ^ nat (?k - 1)) < 1 / y" by linarith
  then have "2 ^ nat (?k - 1) < 1 / y" by (simp only: of_int_power of_int_numeral)
  then have "y * 2 ^ nat (?k - 1) < 1" using assms by (simp add: field_simps)
  then have "y < 1 / 2 ^ nat (?k - 1)" by (simp add: field_simps)
  moreover have "(2 :: real) powi (- ?k + 1) = 1 / 2 ^ nat (?k - 1)"
  proof -
    have "(2 :: real) powi (- ?k + 1) = 2 powi (- (?k - 1))" by simp
    also have "\<dots> = 1 / 2 powi (?k - 1)" by (rule power_int_minus_divide)
    also have "(2 :: real) powi (?k - 1) = 2 ^ nat (?k - 1)"
      using k1 by (simp add: power_int_def)
    finally show ?thesis .
  qed
  ultimately show ?thesis using False by (simp add: exponent_def)
qed

lemma roundEven_error: "\<bar>real_of_int (roundEven r) - r\<bar> \<le> 1 / 2"
proof -
  define f where "f = \<lfloor>r\<rfloor>"
  define d where "d = r - real_of_int f"
  have d0: "0 \<le> d" and d1: "d < 1" unfolding d_def f_def by linarith+
  have r: "r = real_of_int f + d" by (simp add: d_def)
  consider "d < 1 / 2" | "1 / 2 < d" | "d = 1 / 2" by linarith
  then show ?thesis
  proof cases
    case 1
    then have "roundEven r = f"
      unfolding roundEven_def Let_def f_def [symmetric] d_def [symmetric] by simp
    then show ?thesis using 1 d0 by (simp add: r)
  next
    case 2
    then have "roundEven r = f + 1"
      unfolding roundEven_def Let_def f_def [symmetric] d_def [symmetric] by simp
    then show ?thesis using 2 d1 by (simp add: r)
  next
    case 3
    then have e: "roundEven r = f \<or> roundEven r = f + 1"
      unfolding roundEven_def Let_def f_def [symmetric] d_def [symmetric] by simp
    have a: "\<bar>real_of_int f - r\<bar> \<le> 1 / 2" and b: "\<bar>real_of_int (f + 1) - r\<bar> \<le> 1 / 2"
      using 3 unfolding d_def by simp_all
    from e show ?thesis
    proof
      assume "roundEven r = f"
      then show ?thesis using a by simp
    next
      assume "roundEven r = f + 1"
      then show ?thesis using b by simp
    qed
  qed
qed

lemma round64_error: "\<bar>round64 x - x\<bar> \<le> \<bar>x\<bar> / 2 ^ 53"
proof (cases "x = 0")
  case True
  then show ?thesis by (simp add: round64_def)
next
  case False
  define y where "y = \<bar>x\<bar>"
  define u :: real where "u = 2 powi (exponent y - 52)"
  define m where "m = roundEven (y / u)"
  have ypos: "0 < y" using False by (simp add: y_def)
  have upos: "0 < u" by (simp add: u_def)
  have r: "round64 x = sgn x * (real_of_int m * u)"
    using False by (simp add: round64_def Let_def y_def u_def m_def)
  have x: "x = sgn x * y" by (simp add: y_def sgn_mult_abs)
  have "round64 x - x = sgn x * (real_of_int m * u - y)"
    unfolding r by (subst (2) x) (simp add: algebra_simps)
  then have "\<bar>round64 x - x\<bar> = \<bar>real_of_int m * u - y\<bar>"
    using False by (simp add: abs_mult abs_sgn_eq)
  also have "real_of_int m * u - y = u * (real_of_int m - y / u)"
    using upos by (simp add: field_simps)
  also have "\<bar>u * (real_of_int m - y / u)\<bar> = u * \<bar>real_of_int m - y / u\<bar>"
    using upos by (simp add: abs_mult)
  also have "\<dots> \<le> u * (1 / 2)"
    using roundEven_error [of "y / u"] upos unfolding m_def by (intro mult_left_mono) simp_all
  also have "u = 2 powi exponent y / 2 ^ 52"
    unfolding u_def by (subst power_int_diff) simp_all
  also have "2 powi exponent y / 2 ^ 52 * (1 / 2) \<le> y / 2 ^ 52 * (1 / 2)"
    using exponent_lower [OF ypos] by (intro mult_right_mono divide_right_mono) simp_all
  finally show ?thesis by (simp add: y_def)
qed

lemma round64_pos: "0 < x \<Longrightarrow> 0 < round64 x"
proof -
  assume p: "0 < x"
  have "x / 2 ^ 53 < x" using p by (simp add: field_simps)
  with round64_error [of x] p show ?thesis by (simp add: abs_if split: if_splits)
qed

lemma round64_abs_le: "\<bar>round64 x\<bar> \<le> 2 * \<bar>x\<bar>"
proof -
  have "\<bar>round64 x\<bar> \<le> \<bar>round64 x - x\<bar> + \<bar>x\<bar>" by simp
  also have "\<dots> \<le> \<bar>x\<bar> / 2 ^ 53 + \<bar>x\<bar>" using round64_error [of x] by simp
  also have "\<dots> \<le> 2 * \<bar>x\<bar>" by (simp add: field_simps)
  finally show ?thesis .
qed

lemma go_int_in_range:
  assumes "\<bar>f\<bar> < 2 ^ 63"
  shows "\<exists>t. go_int f = Inr t"
proof -
  have a: "- (2 ^ 63) \<le> \<lfloor>f\<rfloor>" if "0 \<le> f" using that by (simp add: le_floor_iff)
  have b: "\<lfloor>f\<rfloor> < 2 ^ 63" if "0 \<le> f" using that assms by (simp add: floor_less_iff)
  have c: "- (2 ^ 63) \<le> \<lceil>f\<rceil>" if "f < 0"
  proof -
    have 1: "- (2 ^ 63) \<le> f" using assms that by simp
    have 2: "f \<le> real_of_int \<lceil>f\<rceil>" by (rule le_of_int_ceiling)
    from 1 2 have "- (2 ^ 63) \<le> real_of_int \<lceil>f\<rceil>" by linarith
    then have "real_of_int (- (2 ^ 63)) \<le> real_of_int \<lceil>f\<rceil>" by simp
    then show ?thesis by (simp only: of_int_le_iff)
  qed
  have d: "\<lceil>f\<rceil> < 2 ^ 63" if "f < 0"
  proof -
    have "\<lceil>f\<rceil> \<le> 0" using that by (simp add: ceiling_le_iff)
    then show ?thesis by simp
  qed
  show ?thesis
    using a b c d by (cases "0 \<le> f") (simp_all add: go_int_def Let_def)
qed

lemma fillLength_in_range:
  assumes "\<bar>p\<bar> \<le> 2" and "\<bar>len\<bar> \<le> 2 ^ 59"
  shows "\<exists>fl. fillLength p len = Inr fl"
proof -
  have "\<bar>float64_int len\<bar> \<le> 2 * \<bar>real_of_int len\<bar>"
    unfolding float64_int_def by (rule round64_abs_le)
  also have "\<bar>real_of_int len\<bar> \<le> 2 ^ 59"
  proof -
    have "real_of_int \<bar>len\<bar> \<le> real_of_int (2 ^ 59)"
      using assms(2) by (simp only: of_int_le_iff)
    then show ?thesis by simp
  qed
  finally have l: "\<bar>float64_int len\<bar> \<le> 2 ^ 60" by simp
  have "\<bar>p * float64_int len\<bar> = \<bar>p\<bar> * \<bar>float64_int len\<bar>" by (rule abs_mult)
  also have "\<dots> \<le> 2 * 2 ^ 60"
    by (rule mult_mono [OF assms(1) l]) simp_all
  finally have m: "\<bar>p * float64_int len\<bar> \<le> 2 ^ 61" by simp
  have "\<bar>round64 (p * float64_int len)\<bar> \<le> 2 * \<bar>p * float64_int len\<bar>"
    by (rule round64_abs_le)
  also have "\<dots> \<le> 2 * 2 ^ 61" using m by simp
  finally have "\<bar>round64 (p * float64_int len)\<bar> < 2 ^ 63" by simp
  then show ?thesis unfolding fillLength_def by (rule go_int_in_range)
qed

lemma progressUpdateBar_bound:
  assumes "currentProcess pb \<le> total_bar pb"
  shows "\<bar>progressUpdateBar pb\<bar> \<le> 2"
proof -
  let ?q = "real (unat (currentProcess pb)) / real (unat (total_bar pb))"
  have c: "real (unat (currentProcess pb)) \<le> real (unat (total_bar pb))"
    using assms by (simp only: of_nat_le_iff word_le_nat_alt)
  have "0 \<le> ?q" by (rule divide_nonneg_nonneg) (simp_all only: of_nat_0_le_iff)
  moreover have "?q \<le> 1"
  proof (cases "unat (total_bar pb) = 0")
    case True
    then have "real (unat (total_bar pb)) = 0" by (simp only: of_nat_0)
    then show ?thesis by (simp only: div_by_0 zero_le_one)
  next
    case False
    then have "0 < unat (total_bar pb)" by simp
    then have "0 < real (unat (total_bar pb))" by (simp only: of_nat_0_less_iff)
    then show ?thesis using c by (simp only: divide_le_eq_1_pos)
  qed
  ultimately have "\<bar>?q\<bar> \<le> 1" by simp
  moreover have "\<bar>round64 ?q\<bar> \<le> 2 * \<bar>?q\<bar>" by (rule round64_abs_le)
  ultimately have "\<bar>round64 ?q\<bar> \<le> 2" by linarith
  then show ?thesis by (simp only: progressUpdateBar_def float64_u32_def)
qed

subsection \<open>Auxiliary facts\<close>

text \<open>The definitions that a run on given numbers unfolds.\<close>

lemmas run_eval =
  UpdateBar_def AddSpecificTimes_def Complete_def finish_def nowIn_def emit_def stopTicker_def
  progressUpdateBar_def progressAddSpecificTimes_def fillLength_def percentOf_def
  float64_u32_def float64_int_def go_int_def capPercentage_def timeAfter_def wrap64_def
  word_le_nat_alt word_less_nat_alt float_eval

lemma NewProgressBar_demo:
  "NewProgressBar demoEnv 0 ''index'' tot 40 [] = Inr (Inr (demoBar tot))"
  by (simp add: NewProgressBar_def demoEnv_def demoBar_def defaultBar_def timeAfter_def wrap64_def)

lemma unat_succ_below:
  fixes a b :: u32
  assumes "a < b"
  shows "unat (a + 1) = unat a + 1"
proof -
  have "unat b < 2 ^ LENGTH(32)" by (rule unsigned_less)
  then have "unat a + unat (1 :: u32) < 2 ^ LENGTH(32)"
    using assms by (simp add: word_less_nat_alt)
  then show ?thesis by (simp add: unat_add_lem [THEN iffD1])
qed


lemma AddSpecificTimes_at_ceiling:
  "total_bar pb \<le> currentProcess pb \<Longrightarrow>
     AddSpecificTimes now steps pb = Inr (pb\<lparr>currentProcess := total_bar pb\<rparr>)"
  by (simp add: AddSpecificTimes_def)

lemma run_adds_at_total:
  "currentProcess pb = total_bar pb \<Longrightarrow> run (addCalls calls) pb = Inr pb"
proof (induction calls)
  case Nil
  then show ?case by simp
next
  case (Cons c calls)
  obtain now s where c: "c = (now, s)" by (cases c)
  have "AddSpecificTimes now s pb = Inr pb"
    using Cons.prems by (simp add: AddSpecificTimes_def)
  then show ?case using Cons c by simp
qed

lemma overshoot_demo:
  "AddSpecificTimes 1000000000 10 (demoBar 4) =
     Inr ((demoBar 4)\<lparr>currentProcess := 10, lastFilledLength := 80,
            ticker := Some 2000000000,
            printChannel := Chan [\<lparr>filledLength = 80, percentage = 100\<rparr>] False\<rparr>)"
  by (simp add: demoBar_def run_eval)

text \<open>One \<^verbatim>\<open>UpdateBar\<close> below the total, on an open channel.\<close>

lemma UpdateBar_below:
  assumes "currentProcess pb < total_bar pb" and "printChannel pb = Chan ms False"
    and "\<bar>barLength pb\<bar> \<le> 2 ^ 59"
  shows "\<exists>pb' ms'. UpdateBar now pb = Inr pb' \<and>
           currentProcess pb' = currentProcess pb + 1 \<and>
           total_bar pb' = total_bar pb \<and>
           complete_bar pb' = complete_bar pb \<and>
           location pb' = location pb \<and>
           barLength pb' = barLength pb \<and>
           printChannel pb' = Chan ms' False \<and>
           (currentProcess pb' = total_bar pb' \<longrightarrow> ticker pb' = None)"
proof -
  let ?pb1 = "pb\<lparr>currentProcess := currentProcess pb + 1\<rparr>"
  have ne: "currentProcess pb \<noteq> total_bar pb" and ngt: "\<not> total_bar pb < currentProcess pb"
    using assms(1) by auto
  have le1: "currentProcess ?pb1 \<le> total_bar ?pb1"
    using assms(1) unat_succ_below [OF assms(1)]
    by (simp add: word_le_nat_alt word_less_nat_alt)
  from fillLength_in_range [OF progressUpdateBar_bound [OF le1] assms(3)]
  obtain fl where fl: "fillLength (progressUpdateBar ?pb1) (barLength pb) = Inr fl"
    by blast
  show ?thesis
    using assms(2)
    by (auto simp add: UpdateBar_def Let_def stopTicker_def emit_def ne ngt fl
        split: option.splits)
qed

lemma run_updates_count:
  assumes "printChannel pb = Chan ms False"
    and "unat (currentProcess pb) + length ts \<le> unat (total_bar pb)"
    and "\<bar>barLength pb\<bar> \<le> 2 ^ 59"
  shows "\<exists>pb' ms'. run (updateCalls ts) pb = Inr pb' \<and>
           unat (currentProcess pb') = unat (currentProcess pb) + length ts \<and>
           total_bar pb' = total_bar pb \<and>
           complete_bar pb' = complete_bar pb \<and>
           location pb' = location pb \<and>
           barLength pb' = barLength pb \<and>
           printChannel pb' = Chan ms' False \<and>
           (ts \<noteq> [] \<and> currentProcess pb' = total_bar pb' \<longrightarrow> ticker pb' = None)"
  using assms
proof (induction ts arbitrary: pb ms)
  case Nil
  then show ?case by simp
next
  case (Cons t ts)
  have lt: "currentProcess pb < total_bar pb"
    using Cons.prems(2) by (simp add: word_less_nat_alt)
  from UpdateBar_below [OF lt Cons.prems(1,3), of t]
  obtain pb1 ms1 where st: "UpdateBar t pb = Inr pb1"
    and cur: "currentProcess pb1 = currentProcess pb + 1"
    and tot: "total_bar pb1 = total_bar pb"
    and com: "complete_bar pb1 = complete_bar pb"
    and loc: "location pb1 = location pb"
    and len: "barLength pb1 = barLength pb"
    and ch: "printChannel pb1 = Chan ms1 False"
    and tk: "currentProcess pb1 = total_bar pb1 \<longrightarrow> ticker pb1 = None"
    by blast
  have u: "unat (currentProcess pb1) = unat (currentProcess pb) + 1"
    using unat_succ_below [OF lt] cur by simp
  show ?case
  proof (cases "ts = []")
    case True
    then show ?thesis using st cur tot com loc len ch tk u by simp
  next
    case False
    have n: "unat (currentProcess pb1) + length ts \<le> unat (total_bar pb1)"
      using u tot Cons.prems(2) by simp
    have b: "\<bar>barLength pb1\<bar> \<le> 2 ^ 59" using len Cons.prems(3) by simp
    from Cons.IH [OF ch n b] st u tot com loc len False show ?thesis by auto
  qed
qed

lemma Complete_within_total:
  assumes "complete_bar pb = False" and "currentProcess pb \<le> total_bar pb"
    and "printChannel pb = Chan ms False" and "location pb = Some loc"
  shows "Complete now pb =
           Inr (pb\<lparr>endTime := \<lparr>instant = now, zone = Some loc\<rparr>,
                   currentProcess := total_bar pb,
                   printChannel := Chan (ms @ [\<lparr>filledLength = barLength pb, percentage = 100\<rparr>]) True,
                   complete_bar := True, ticker := None\<rparr>)"
  using assms by (simp add: Complete_def finish_def nowIn_def)

lemma Complete_when_complete: "complete_bar pb \<Longrightarrow> Complete now pb = Inr pb"
  by (simp add: Complete_def)

text \<open>Two calls of \<^verbatim>\<open>Complete\<close>, the first one finding \<open>currentProcess \<le> total\<close>: the second
  changes nothing, so one frame is sent, the channel is closed once and \<open>endTime\<close> is the
  instant of the first call.\<close>

lemma Complete_twice_within_total:
  assumes "complete_bar pb = False" and "currentProcess pb \<le> total_bar pb"
    and "printChannel pb = Chan ms False" and "location pb = Some loc"
  shows "run [CallComplete t1, CallComplete t2] pb = Complete t1 pb \<and>
         (\<exists>pb'. Complete t1 pb = Inr pb' \<and> complete_bar pb' \<and>
            closed (printChannel pb') \<and>
            sent (printChannel pb') = ms @ [\<lparr>filledLength = barLength pb, percentage = 100\<rparr>] \<and>
            endTime pb' = \<lparr>instant = t1, zone = Some loc\<rparr>)"
  by (simp add: Complete_within_total [OF assms] Complete_when_complete)

lemma Report_incomplete:
  "\<not> complete_bar pb \<Longrightarrow> Report e w pb = Inr (Some ''progress is not yet complete'', [], pb)"
  by (simp add: Report_def)

lemma go_quot_pos: "0 \<le> a \<Longrightarrow> go_quot a 2 = a div 2"
  by (cases "a = 0") (simp_all add: go_quot_def)

lemma Report_returns: "\<exists>err out. Report e w pb = Inr (err, out, pb)"
proof (cases "complete_bar pb")
  case False
  then show ?thesis by (simp add: Report_incomplete)
next
  case True
  have m: "(if w < 32 then 32 else w) = max 32 w" by simp
  have "go_quot (8 + max 32 w) 2 = (8 + max 32 w) div 2"
    by (rule go_quot_pos) simp
  then have p: "\<not> go_quot (8 + max 32 w) 2 < 1" "\<not> go_quot (8 + max 32 w) 2 < 0"
    by simp_all
  have q: "\<not> 27 + max 32 w < 0" by simp
  show ?thesis
    using True
    by (simp add: Report_def Let_def Repeat_def m p q
        del: max.absorb1 max.absorb2 max.absorb3 max.absorb4)
qed

lemma Report_complete:
  assumes "complete_bar pb"
  shows "\<exists>out. Report e w pb = Inr (None, out, pb)"
proof -
  from Report_returns [of e w pb] obtain err out where r: "Report e w pb = Inr (err, out, pb)"
    by blast
  have "err = None"
    using r assms
    by (auto simp add: Report_def Let_def split: sum.splits)
  with r show ?thesis by blast
qed


lemma NewProgressBar_no_options:
  assumes "NewProgressBar e now nm tot len [] = Inr (Inr pb)"
  shows "\<exists>loc. LoadLocation e ''Asia/Shanghai'' = Inr loc \<and>
           pb = (defaultBar e nm tot len)
                  \<lparr>location := Some loc,
                   startTime := \<lparr>instant = now, zone = Some loc\<rparr>,
                   ticker := Some (timeAfter now 1000),
                   printChannel := Chan [] False,
                   finishBar := Chan [] False\<rparr>"
  using assms by (auto simp add: NewProgressBar_def defaultBar_def split: sum.splits)

lemma hundred_updates:
  assumes "printChannel pb = Chan [] False" and "currentProcess pb = 0"
    and "total_bar pb = 100" and "length ts = 100" and "barLength pb = 40"
  shows "\<exists>pb' ms'. run (updateCalls ts) pb = Inr pb' \<and> currentProcess pb' = 100 \<and>
           total_bar pb' = 100 \<and> ticker pb' = None \<and> complete_bar pb' = complete_bar pb \<and>
           location pb' = location pb \<and> printChannel pb' = Chan ms' False"
proof -
  have n: "unat (currentProcess pb) + length ts \<le> unat (total_bar pb)"
    using assms by simp
  have b: "\<bar>barLength pb\<bar> \<le> 2 ^ 59" using assms(5) by simp
  from run_updates_count [OF assms(1) n b]
  obtain pb' ms' where r: "run (updateCalls ts) pb = Inr pb'"
    and u: "unat (currentProcess pb') = unat (currentProcess pb) + length ts"
    and tot: "total_bar pb' = total_bar pb"
    and com: "complete_bar pb' = complete_bar pb"
    and loc: "location pb' = location pb"
    and ch: "printChannel pb' = Chan ms' False"
    and tk: "ts \<noteq> [] \<and> currentProcess pb' = total_bar pb' \<longrightarrow> ticker pb' = None"
    by blast
  have "unat (currentProcess pb') = unat (100 :: u32)" using u assms by simp
  then have cur: "currentProcess pb' = 100" by (simp only: word_unat_eq_iff)
  have "ts \<noteq> []" using assms(4) by auto
  then have "ticker pb' = None" using tk cur tot assms(3) by simp
  then show ?thesis using r cur tot com loc ch assms(3) by simp
qed

lemma applyOpts_panic:
  "applyOpts pb opts = Inl f \<Longrightarrow> \<exists>opt\<in>set opts. \<exists>pb'. opt pb' = Inl f"
proof (induction opts arbitrary: pb)
  case Nil
  then show ?case by simp
next
  case (Cons opt opts)
  show ?case
  proof (cases "opt pb")
    case (Inl g)
    then show ?thesis using Cons.prems by auto
  next
    case (Inr pb1)
    then have "applyOpts pb1 opts = Inl f" using Cons.prems by simp
    from Cons.IH [OF this] show ?thesis by auto
  qed
qed

text \<open>The options of the package, applied in order: each setting ends as the last value
  given for it.\<close>

lemma lastOr_Cons: "lastOr d (x # xs) = lastOr x xs"
  by (simp add: lastOr_def)

lemma applyOpts_specs:
  "applyOpts pb (map optionOf specs) =
     Inr (pb\<lparr>precision := lastOr (precision pb) (trackings specs),
             timezone := lastOr (timezone pb) (zones specs),
             updateInterval := lastOr (updateInterval pb) (intervals specs),
             barColor := lastOr (barColor pb) (colours specs)\<rparr>)"
proof (induction specs arbitrary: pb)
  case Nil
  show ?case by (simp add: trackings_def zones_def intervals_def colours_def lastOr_def)
next
  case (Cons s specs)
  show ?case
  proof (cases s)
    case (Tracking p)
    then show ?thesis
      by (simp add: Cons.IH WithTracking_def trackings_def zones_def intervals_def colours_def
          lastOr_Cons)
  next
    case (TimeZone z)
    then show ?thesis
      by (simp add: Cons.IH WithTimeZone_def trackings_def zones_def intervals_def colours_def
          lastOr_Cons)
  next
    case (TimeControl i)
    then show ?thesis
      by (simp add: Cons.IH WithTimeControl_def trackings_def zones_def intervals_def colours_def
          lastOr_Cons)
  next
    case (Display c)
    then show ?thesis
      by (simp add: Cons.IH WithDisplay_def trackings_def zones_def intervals_def colours_def
          lastOr_Cons)
  qed
qed

lemma NewProgressBar_specs:
  "NewProgressBar e now nm tot len (map optionOf specs) =
     (case LoadLocation e (lastOr ''Asia/Shanghai'' (zones specs)) of
        Inl err \<Rightarrow> Inr (Inl err)
      | Inr loc \<Rightarrow>
          Inr (Inr \<lparr>name = nm, total_bar = tot, barLength = len,
                 precision = lastOr 2 (trackings specs),
                 currentProcess = 0, lastFilledLength = 0,
                 timezone = lastOr ''Asia/Shanghai'' (zones specs),
                 location = Some loc,
                 startTime = \<lparr>instant = now, zone = Some loc\<rparr>,
                 endTime = zeroTime, complete_bar = False,
                 updateInterval = lastOr 1000 (intervals specs),
                 ticker = (if 0 < lastOr 1000 (intervals specs)
                           then Some (timeAfter now (lastOr 1000 (intervals specs)))
                           else None),
                 barColor = lastOr (BrightCyan e) (colours specs),
                 resetColor = Reset e,
                 printChannel = Chan [] False, finishBar = Chan [] False\<rparr>))"
  by (simp add: NewProgressBar_def applyOpts_specs defaultBar_def split: sum.splits)




lemma unat_div_below:
  fixes c t :: u32
  assumes "c < t"
  shows "c div t = 0"
  using assms by (simp add: word_less_nat_alt unat_eq_zero [symmetric] unat_div)

lemma percentOf_pos: "0 < p \<Longrightarrow> 0 < percentOf p"
proof -
  assume "0 < p"
  then have "0 < round64 (p * 100)" by (intro round64_pos) simp
  then show ?thesis by (simp add: percentOf_def capPercentage_def)
qed

lemma emit_sent:
  assumes "emit now pb fl pct = Inr pb'"
    and "sent (printChannel pb') \<noteq> sent (printChannel pb)"
  shows "sent (printChannel pb') =
           sent (printChannel pb) @ [\<lparr>filledLength = fl, percentage = pct\<rparr>]"
proof (cases "printChannel pb")
  case NilChan
  then show ?thesis using assms
    by (auto simp add: emit_def split: if_splits option.splits)
next
  case (Chan ms c)
  then show ?thesis using assms
    by (cases c) (auto simp add: emit_def split: if_splits option.splits)
qed

lemma stopTicker_sent: "sent (printChannel (stopTicker pb)) = sent (printChannel pb)"
  by (simp add: stopTicker_def)

subsection \<open>Sample values\<close>

text \<open>Rounding: \<open>29/100\<close> is not a float64, nor is its product with 100 the number 29; an
  \<^verbatim>\<open>int\<close> beyond 53 bits is rounded by the conversion.\<close>

lemma round64_samples:
  "round64 (29 / 100) = 5224175567749775 / 2 ^ 54"
  "round64 (round64 (29 / 100) * 100) = 8162774324609023 / 2 ^ 48"
  "round64 (1 / 2) = 1 / 2"
  "round64 (- (3 / 10)) = - (5404319552844595 / 2 ^ 54)"
  "float64_int 40 = 40"
  "float64_int 9007199254740995 = 9007199254740996"
  by (simp_all add: float64_int_def float_eval)

lemma go_int_samples:
  "go_int (7 / 2) = Inr 3"
  "go_int (- (7 / 2)) = Inr (- 3)"
  "go_int (- (2 ^ 63)) = Inr (- (2 ^ 63))"
  "go_int (2 ^ 63) = Inl ConversionOutOfRange"
  "fillLength 4294967295 (2 ^ 62) = Inl ConversionOutOfRange"
  by (simp_all add: go_int_def fillLength_def float64_int_def float_eval)

text \<open>\<^verbatim>\<open>WithTimeControl(1 << 62)\<close>: the duration wraps to 0 and the timer is due at once.\<close>

lemma timeAfter_samples:
  "timeAfter now 1000 = now + 1000000000"
  "timeAfter now 4611686018427387904 = now"
  "timeAfter now 9223372036854 = now + 9223372036854000000"
  "timeAfter now 9223372036855 = now - 9223372036854551616"
  by (simp_all add: timeAfter_def wrap64_def)

lemma padRight_samples:
  "padRight 5 ''ab'' = ''ab   ''"
  "padRight (- 5) ''ab'' = ''ab   ''"
  "padRight 1 ''ab'' = ''ab''"
  "Repeat ''ab'' 3 = Inr ''ababab''"
  "Repeat ''ab'' (- 1) = Inl NegativeRepeatCount"
  by code_simp+

lemma report_samples:
  "padRight 1000001 ''ab'' = ''%!(BADWIDTH)ab''"
  "go_quot 7 2 = 3"
  "go_quot (- 7) 2 = - 3"
  "decimal 0 = ''0''"
  "decimal 4294967295 = ''4294967295''"
  by (simp_all add: padRight_def go_quot_def decimal.simps)

lemma failure_samples:
  "Complete 5 ((demoBar 4)\<lparr>location := None\<rparr>) = Inl MissingLocation"
  "Complete 5 ((demoBar 4)\<lparr>printChannel := NilChan\<rparr>) = Inl SendOnNilChannel"
  "Complete 5 ((demoBar 4)\<lparr>printChannel := Chan [] True\<rparr>) = Inl SendOnClosedChannel"
  "Complete 5 ((demoBar 4)\<lparr>currentProcess := 9, printChannel := NilChan\<rparr>) =
     Inl CloseOfNilChannel"
  by (simp_all add: Complete_def finish_def nowIn_def demoBar_def word_le_nat_alt)

text \<open>The digits that \<open>decimal\<close> writes read back as the number.\<close>

lemma digit_value:
  assumes "m < 10"
  shows "of_char (''0123456789'' ! m) - 48 = m"
proof -
  from assms have "m = 0 \<or> m = 1 \<or> m = 2 \<or> m = 3 \<or> m = 4 \<or> m = 5 \<or> m = 6 \<or> m = 7 \<or> m = 8 \<or> m = 9"
    by arith
  then show ?thesis by (elim disjE) simp_all
qed

lemma decimal_reads_back:
  "foldl (\<lambda>a c. 10 * a + (of_char c - 48)) 0 (decimal n) = n"
proof (induction n rule: decimal.induct)
  case (1 n)
  show ?case
  proof (cases "n < 10")
    case True
    then have "decimal n = [''0123456789'' ! n]" by (subst decimal.simps) simp
    then show ?thesis using digit_value [OF True] by simp
  next
    case False
    have d: "of_char (''0123456789'' ! (n mod 10)) - 48 = n mod 10"
      by (rule digit_value) simp
    have e: "decimal n = decimal (n div 10) @ [''0123456789'' ! (n mod 10)]"
      using False by (subst decimal.simps) simp
    have "foldl (\<lambda>a c. 10 * a + (of_char c - 48)) 0 (decimal n) =
            10 * (n div 10) + n mod 10"
      unfolding e using 1 [OF False] d by (simp only: foldl_append foldl.simps)
    then show ?thesis by simp
  qed
qed

section \<open>The claims\<close>

subsection \<open>C1: the counter under \<^verbatim>\<open>AddSpecificTimes\<close>\<close>

text \<open>
  C1 at the input \<^verbatim>\<open>NewProgressBar("index", 4, 40)\<close>, \<^verbatim>\<open>AddSpecificTimes(10)\<close> one second later.
  The call adds the steps and does not clamp: it leaves \<open>currentProcess = 10\<close> on a total
  of 4 (and, the ticker being due, sends the frame \<open>(80, 100)\<close> for a bar of length 40).
  The clamp that the claim describes is the guard at the entry of the operation: it sets
  the counter to 4 only when a further call arrives.
\<close>

theorem AddSpecificTimes_overshoots_total:
  "run (addCalls [(1000000000, 10)]) (demoBar 4) =
     Inr ((demoBar 4)\<lparr>currentProcess := 10, lastFilledLength := 80,
            ticker := Some 2000000000,
            printChannel := Chan [\<lparr>filledLength = 80, percentage = 100\<rparr>] False\<rparr>)
   \<and> total_bar (demoBar 4) = 4 \<and> (4 :: u32) < 10
   \<and> run (addCalls [(1000000000, 10), (1500000000, 1)]) (demoBar 4) =
     Inr ((demoBar 4)\<lparr>currentProcess := 4, lastFilledLength := 80,
            ticker := Some 2000000000,
            printChannel := Chan [\<lparr>filledLength = 80, percentage = 100\<rparr>] False\<rparr>)"
  by (simp add: overshoot_demo) (simp add: demoBar_def AddSpecificTimes_def word_le_nat_alt)

subsection \<open>C2: \<^verbatim>\<open>Complete\<close> called twice\<close>

text \<open>
  C2 at the input \<^verbatim>\<open>NewProgressBar("index", 4, 40)\<close>, \<^verbatim>\<open>AddSpecificTimes(10)\<close>, \<^verbatim>\<open>Complete()\<close>,
  \<^verbatim>\<open>Complete()\<close>. The first \<^verbatim>\<open>Complete\<close> finds \<open>currentProcess = 10 > total\<close>: it skips the
  whole block in which \<open>endTime\<close> is recorded, the final frame is sent and \<open>complete\<close> is
  set, but it still closes the print channel. The second call finds \<open>complete = false\<close>
  again and closes the closed channel, which is a run-time panic. (When the first call
  finds \<open>currentProcess \<le> total\<close>, lemma \<open>Complete_twice_within_total\<close> shows the second call
  to change nothing.)
\<close>

theorem Complete_twice_after_overshoot_panics:
  "run [CallAddSpecificTimes 1000000000 10, CallComplete 2000000000] (demoBar 4) =
     Inr ((demoBar 4)\<lparr>currentProcess := 10, lastFilledLength := 80, ticker := None,
            printChannel := Chan [\<lparr>filledLength = 80, percentage = 100\<rparr>] True\<rparr>)
   \<and> run [CallAddSpecificTimes 1000000000 10, CallComplete 2000000000, CallComplete 3000000000]
         (demoBar 4) = Inl CloseOfClosedChannel"
  by (simp add: overshoot_demo) (simp add: Complete_def demoBar_def word_le_nat_alt)

subsection \<open>C3: a hundred \<^verbatim>\<open>UpdateBar\<close> calls\<close>

text \<open>
  C3 as stated does not hold: no update operation writes the field \<open>complete\<close>. After
  \<^verbatim>\<open>NewProgressBar("index", 100, 40)\<close> and a hundred \<^verbatim>\<open>UpdateBar()\<close> calls the flag is still
  false, and \<^verbatim>\<open>Report\<close> returns its error.
\<close>

theorem UpdateBar_hundred_not_complete_counterexample:
  "map_sum id complete_bar (run (updateCalls (replicate 100 0)) (demoBar 100)) = Inr False \<and>
   map_sum id fst (reportAfter demoEnv 40 (run (updateCalls (replicate 100 0)) (demoBar 100))) =
     Inr (Some ''progress is not yet complete'')"
proof -
  have "printChannel (demoBar 100) = Chan [] False" "currentProcess (demoBar 100) = 0"
    "total_bar (demoBar 100) = 100" "length (replicate 100 (0::int)) = 100"
    "barLength (demoBar 100) = 40"
    by (simp_all add: demoBar_def)
  from hundred_updates [OF this]
  obtain pb' where r: "run (updateCalls (replicate 100 0)) (demoBar 100) = Inr pb'"
    and com: "complete_bar pb' = complete_bar (demoBar 100)"
    by blast
  have nc: "\<not> complete_bar pb'" using com by (simp add: demoBar_def)
  show ?thesis using r nc by (simp add: reportAfter_def Report_incomplete)
qed

text \<open>
  C3, amended. After \<^verbatim>\<open>NewProgressBar("index", 100, 40)\<close> (the default zone resolving) and
  a hundred \<^verbatim>\<open>UpdateBar()\<close> calls, at any instants, \<open>currentProcess\<close> is 100 and the ticker
  is nil, but \<open>complete\<close> is still false and \<^verbatim>\<open>Report\<close> returns the error
  "progress is not yet complete" without output. Only \<^verbatim>\<open>Complete()\<close> sets the flag; after
  it \<^verbatim>\<open>Report\<close> returns nil.
\<close>

theorem UpdateBar_reaching_total_leaves_incomplete:
  assumes "NewProgressBar e t0 ''index'' 100 40 [] = Inr (Inr pb0)" and "length ts = 100"
  shows "\<exists>pb. run (updateCalls ts) pb0 = Inr pb \<and>
           currentProcess pb = 100 \<and> ticker pb = None \<and> complete_bar pb = False \<and>
           (\<forall>w. Report e w pb = Inr (Some ''progress is not yet complete'', [], pb)) \<and>
           (\<forall>now w. \<exists>pb' out. Complete now pb = Inr pb' \<and> complete_bar pb' \<and>
                       Report e w pb' = Inr (None, out, pb'))"
proof -
  from NewProgressBar_no_options [OF assms(1)]
  obtain loc where pb0: "pb0 = (defaultBar e ''index'' 100 40)
                  \<lparr>location := Some loc,
                   startTime := \<lparr>instant = t0, zone = Some loc\<rparr>,
                   ticker := Some (timeAfter t0 1000),
                   printChannel := Chan [] False,
                   finishBar := Chan [] False\<rparr>"
    by blast
  have "printChannel pb0 = Chan [] False" "currentProcess pb0 = 0" "total_bar pb0 = 100"
    and c0: "complete_bar pb0 = False" and l0: "location pb0 = Some loc"
    and b0: "barLength pb0 = 40"
    by (simp_all add: pb0 defaultBar_def)
  from hundred_updates [OF this(1,2,3) assms(2) b0]
  obtain pb ms where r: "run (updateCalls ts) pb0 = Inr pb" and cur: "currentProcess pb = 100"
    and tot: "total_bar pb = 100" and tk: "ticker pb = None"
    and com: "complete_bar pb = complete_bar pb0" and loc: "location pb = location pb0"
    and ch: "printChannel pb = Chan ms False"
    by blast
  have nc: "complete_bar pb = False" using com c0 by simp
  have rep: "\<forall>w. Report e w pb = Inr (Some ''progress is not yet complete'', [], pb)"
    using nc by (simp add: Report_incomplete)
  have fin: "\<exists>pb' out. Complete now pb = Inr pb' \<and> complete_bar pb' \<and>
                       Report e w pb' = Inr (None, out, pb')" for now w
  proof -
    have le: "currentProcess pb \<le> total_bar pb" using cur tot by simp
    have l: "location pb = Some loc" using loc l0 by simp
    let ?pb' = "pb\<lparr>endTime := \<lparr>instant = now, zone = Some loc\<rparr>,
                   currentProcess := total_bar pb,
                   printChannel := Chan (ms @ [\<lparr>filledLength = barLength pb, percentage = 100\<rparr>]) True,
                   complete_bar := True, ticker := None\<rparr>"
    have c: "Complete now pb = Inr ?pb'" by (rule Complete_within_total [OF nc le ch l])
    have cb: "complete_bar ?pb'" by simp
    from Report_complete [OF cb, of e w]
    obtain out where o: "Report e w ?pb' = Inr (None, out, ?pb')" by blast
    show ?thesis
    proof (intro exI conjI)
      show "Complete now pb = Inr ?pb'" by (rule c)
      show "complete_bar ?pb'" by (rule cb)
      show "Report e w ?pb' = Inr (None, out, ?pb')" by (rule o)
    qed
  qed
  from r cur tk nc rep fin show ?thesis by blast
qed

theorem UpdateBar_reaching_total_leaves_incomplete_witness:
  "\<exists>pb. run (updateCalls (replicate 100 0)) (demoBar 100) = Inr pb \<and>
           currentProcess pb = 100 \<and> ticker pb = None \<and> complete_bar pb = False \<and>
           (\<forall>w. Report demoEnv w pb = Inr (Some ''progress is not yet complete'', [], pb)) \<and>
           (\<forall>now w. \<exists>pb' out. Complete now pb = Inr pb' \<and> complete_bar pb' \<and>
                       Report demoEnv w pb' = Inr (None, out, pb'))"
  using UpdateBar_reaching_total_leaves_incomplete
          [of demoEnv 0 "demoBar 100" "replicate 100 0"]
  by (simp add: NewProgressBar_demo)

subsection \<open>C4: \<^verbatim>\<open>UpdateBar\<close> against \<^verbatim>\<open>AddSpecificTimes(1)\<close>\<close>

text \<open>
  C4 at the input \<^verbatim>\<open>NewProgressBar("index", 4, 40)\<close>, one \<^verbatim>\<open>UpdateBar()\<close> at once (the ticker is
  not due, no frame), and a second step one second later, when the ticker is due. Taken
  by \<^verbatim>\<open>UpdateBar()\<close> the step sends the frame \<open>(20, 50)\<close> and sets \<open>lastFilledLength = 20\<close>;
  taken by \<^verbatim>\<open>AddSpecificTimes(1)\<close> it sends nothing and leaves \<open>lastFilledLength = 0\<close>. The
  counter is 2 in both.
\<close>

theorem UpdateBar_and_AddSpecificTimes_one_differ:
  "run [CallUpdateBar 0, CallUpdateBar 1000000000] (demoBar 4) =
     Inr ((demoBar 4)\<lparr>currentProcess := 2, lastFilledLength := 20,
            ticker := Some 2000000000,
            printChannel := Chan [\<lparr>filledLength = 20, percentage = 50\<rparr>] False\<rparr>)
   \<and> run [CallUpdateBar 0, CallAddSpecificTimes 1000000000 1] (demoBar 4) =
     Inr ((demoBar 4)\<lparr>currentProcess := 2\<rparr>)"
  by (simp add: demoBar_def run_eval)

subsection \<open>C5: the frames on the print channel\<close>

text \<open>
  C5 at two inputs, both on \<^verbatim>\<open>NewProgressBar("index", 4, 40)\<close> with the ticker due at each
  call. After \<^verbatim>\<open>AddSpecificTimes(10)\<close> the counter is 10 and the frame \<open>(80, 100)\<close> has been
  sent; \<^verbatim>\<open>Complete()\<close> then finds \<open>currentProcess > total\<close> and sends nothing, so the last
  frame has fill length 80 and not the length 40 of the bar. And \<^verbatim>\<open>UpdateBar()\<close>,
  \<^verbatim>\<open>AddSpecificTimes(1)\<close>, \<^verbatim>\<open>Complete()\<close> send the fill lengths 10, 0, 40, which are not in
  order.
\<close>

theorem frames_out_of_order_and_last_frame_missing:
  "map_sum id (\<lambda>pb. sent (printChannel pb))
     (run [CallAddSpecificTimes 1000000000 10, CallComplete 2000000000] (demoBar 4)) =
       Inr [\<lparr>filledLength = 80, percentage = 100\<rparr>] \<and>
   barLength (demoBar 4) = 40 \<and>
   map_sum id fills
     (run [CallUpdateBar 1000000000, CallAddSpecificTimes 2000000000 1, CallComplete 3000000000]
        (demoBar 4)) = Inr [10, 0, 40] \<and>
   \<not> sorted [10, 0, 40 :: int]"
  by (simp add: demoBar_def fills_def run_eval)

subsection \<open>C6: the division in the two update paths\<close>

text \<open>
  C6. In \<^verbatim>\<open>AddSpecificTimes\<close> the progress of every state is the \<^verbatim>\<open>uint32\<close> quotient of
  \<open>currentProcess\<close> by \<open>total\<close>, converted afterwards. So whenever the counter after the
  addition lies strictly between 0 and \<open>total\<close>, the progress is 0, and a frame that the
  call sends is \<open>(0, 0)\<close>. In \<^verbatim>\<open>UpdateBar\<close> the progress is the float64 quotient of the
  converted values: it is positive and within the relative error \<open>2\<^sup>-\<^sup>5\<^sup>3\<close> of the true
  proportion \<open>(currentProcess + 1) / total\<close>, and a frame that the call sends carries the
  percentage computed from it, which is positive.
\<close>

theorem AddSpecificTimes_truncates_UpdateBar_does_not:
  assumes "currentProcess pb < total_bar pb"
  shows "progressAddSpecificTimes pb' =
           real (unat (currentProcess pb') div unat (total_bar pb')) \<and>
         (0 < currentProcess pb + steps \<and> currentProcess pb + steps < total_bar pb \<longrightarrow>
            progressAddSpecificTimes (pb\<lparr>currentProcess := currentProcess pb + steps\<rparr>) = 0 \<and>
            (\<forall>pa. AddSpecificTimes now steps pb = Inr pa \<and>
                   sent (printChannel pa) \<noteq> sent (printChannel pb) \<longrightarrow>
                   sent (printChannel pa) =
                     sent (printChannel pb) @ [\<lparr>filledLength = 0, percentage = 0\<rparr>])) \<and>
         0 < progressUpdateBar (pb\<lparr>currentProcess := currentProcess pb + 1\<rparr>) \<and>
         \<bar>progressUpdateBar (pb\<lparr>currentProcess := currentProcess pb + 1\<rparr>)
            - real (unat (currentProcess pb) + 1) / real (unat (total_bar pb))\<bar>
           \<le> real (unat (currentProcess pb) + 1) / real (unat (total_bar pb)) / 2 ^ 53 \<and>
         (\<forall>pu. UpdateBar now pb = Inr pu \<and>
                sent (printChannel pu) \<noteq> sent (printChannel pb) \<longrightarrow>
                (\<exists>fl. sent (printChannel pu) =
                   sent (printChannel pb) @
                     [\<lparr>filledLength = fl,
                       percentage = percentOf (progressUpdateBar
                                      (pb\<lparr>currentProcess := currentProcess pb + 1\<rparr>))\<rparr>]) \<and>
                0 < percentOf (progressUpdateBar (pb\<lparr>currentProcess := currentProcess pb + 1\<rparr>)))"
proof -
  let ?pa = "pb\<lparr>currentProcess := currentProcess pb + steps\<rparr>"
  let ?pu = "pb\<lparr>currentProcess := currentProcess pb + 1\<rparr>"
  let ?q = "real (unat (currentProcess pb) + 1) / real (unat (total_bar pb))"
  have quot: "progressAddSpecificTimes pb' =
           real (unat (currentProcess pb') div unat (total_bar pb'))"
    by (simp only: progressAddSpecificTimes_def float64_u32_def unat_div)
  have nle: "\<not> total_bar pb \<le> currentProcess pb" using assms by simp
  have ne: "currentProcess pb \<noteq> total_bar pb" and ngt: "\<not> total_bar pb < currentProcess pb"
    using assms by auto
  have add: "progressAddSpecificTimes ?pa = 0 \<and>
            (\<forall>pa. AddSpecificTimes now steps pb = Inr pa \<and>
                   sent (printChannel pa) \<noteq> sent (printChannel pb) \<longrightarrow>
                   sent (printChannel pa) =
                     sent (printChannel pb) @ [\<lparr>filledLength = 0, percentage = 0\<rparr>])"
    if below: "currentProcess pb + steps < total_bar pb"
  proof -
    have d: "(currentProcess pb + steps) div total_bar pb = 0"
      by (rule unat_div_below [OF below])
    have p0: "progressAddSpecificTimes ?pa = 0"
      by (simp add: progressAddSpecificTimes_def float64_u32_def d)
    have f0: "fillLength 0 (barLength pb) = Inr 0"
      by (simp add: fillLength_def go_int_def round64_def)
    have c0: "percentOf 0 = 0"
      by (simp add: percentOf_def capPercentage_def round64_def)
    have a: "AddSpecificTimes now steps pb =
        (case emit now ?pa 0 0 of Inl f \<Rightarrow> Inl f | Inr pb2 \<Rightarrow> Inr (stopTicker pb2))"
      by (simp add: AddSpecificTimes_def Let_def nle p0 f0 c0)
    have s: "sent (printChannel pa) =
               sent (printChannel pb) @ [\<lparr>filledLength = 0, percentage = 0\<rparr>]"
      if r: "AddSpecificTimes now steps pb = Inr pa"
        and n: "sent (printChannel pa) \<noteq> sent (printChannel pb)" for pa
    proof -
      from r obtain pb2 where e: "emit now ?pa 0 0 = Inr pb2" and pa: "pa = stopTicker pb2"
        unfolding a by (auto split: sum.splits)
      have "sent (printChannel pb2) \<noteq> sent (printChannel ?pa)"
        using n by (simp add: pa stopTicker_sent)
      from emit_sent [OF e this] show ?thesis by (simp add: pa stopTicker_sent)
    qed
    from p0 s show ?thesis by blast
  qed
  have u: "unat (currentProcess pb + 1) = unat (currentProcess pb) + 1"
    by (rule unat_succ_below [OF assms])
  have tpos: "0 < unat (total_bar pb)"
    using assms by (simp add: word_less_nat_alt)
  have rpos: "0 < real (unat (total_bar pb))"
    using tpos by (simp only: of_nat_0_less_iff)
  have qpos: "0 < ?q"
    by (rule divide_pos_pos [OF _ rpos]) (simp only: of_nat_0_less_iff add_gr_0 zero_less_one simp_thms)
  have pu: "progressUpdateBar ?pu = round64 ?q"
    by (simp add: progressUpdateBar_def float64_u32_def u)
  have pos: "0 < progressUpdateBar ?pu"
    unfolding pu by (rule round64_pos [OF qpos])
  have err: "\<bar>progressUpdateBar ?pu - ?q\<bar> \<le> ?q / 2 ^ 53"
  proof -
    have "\<bar>round64 ?q - ?q\<bar> \<le> \<bar>?q\<bar> / 2 ^ 53" by (rule round64_error)
    moreover have "\<bar>?q\<bar> = ?q" using qpos by (simp only: abs_of_pos)
    ultimately show ?thesis unfolding pu by (simp only:)
  qed
  have upd: "(\<exists>fl. sent (printChannel p) =
                   sent (printChannel pb) @
                     [\<lparr>filledLength = fl, percentage = percentOf (progressUpdateBar ?pu)\<rparr>]) \<and>
                0 < percentOf (progressUpdateBar ?pu)"
    if r: "UpdateBar now pb = Inr p"
      and n: "sent (printChannel p) \<noteq> sent (printChannel pb)" for p
  proof -
    from r obtain fl pb2 where e: "emit now ?pu fl (percentOf (progressUpdateBar ?pu)) = Inr pb2"
      and p: "p = stopTicker pb2"
      by (auto simp add: UpdateBar_def Let_def ne ngt split: sum.splits)
    have "sent (printChannel pb2) \<noteq> sent (printChannel ?pu)"
      using n by (simp add: p stopTicker_sent)
    from emit_sent [OF e this]
    have "sent (printChannel p) =
            sent (printChannel pb) @
              [\<lparr>filledLength = fl, percentage = percentOf (progressUpdateBar ?pu)\<rparr>]"
      by (simp add: p stopTicker_sent)
    then show ?thesis using percentOf_pos [OF pos] by blast
  qed
  from quot add pos err upd show ?thesis by blast
qed

theorem AddSpecificTimes_truncates_UpdateBar_does_not_witness:
  "progressAddSpecificTimes ((demoBar 4)\<lparr>currentProcess := 10\<rparr>) = 2 \<and>
   AddSpecificTimes 1000000000 1
       ((demoBar 100)\<lparr>barLength := 100, currentProcess := 28, lastFilledLength := 27\<rparr>) =
     Inr ((demoBar 100)\<lparr>barLength := 100, currentProcess := 29, lastFilledLength := 0,
            ticker := Some 2000000000,
            printChannel := Chan [\<lparr>filledLength = 0, percentage = 0\<rparr>] False\<rparr>) \<and>
   UpdateBar 1000000000
       ((demoBar 100)\<lparr>barLength := 100, currentProcess := 28, lastFilledLength := 27\<rparr>) =
     Inr ((demoBar 100)\<lparr>barLength := 100, currentProcess := 29, lastFilledLength := 28,
            ticker := Some 2000000000,
            printChannel :=
              Chan [\<lparr>filledLength = 28,
                     percentage = 8162774324609023 / 281474976710656\<rparr>] False\<rparr>)"
  using AddSpecificTimes_truncates_UpdateBar_does_not
          [of "(demoBar 100)\<lparr>barLength := 100, currentProcess := 28, lastFilledLength := 27\<rparr>"
              "(demoBar 4)\<lparr>currentProcess := 10\<rparr>" 1 1000000000]
  by (simp add: demoBar_def run_eval)

subsection \<open>C7: \<^verbatim>\<open>Report\<close> before and after completion\<close>



subsection \<open>C8: the failures of construction\<close>

text \<open>
  C8 as stated does not hold: \<^verbatim>\<open>NewProgressBar\<close> calls every option it is given without a
  check, so a nil option makes it panic although the zone name resolves, and neither a
  bar nor an error is returned.
\<close>

theorem NewProgressBar_nil_option_counterexample:
  "NewProgressBar demoEnv 0 ''index'' 100 40 [nilOption] = Inl NilFunctionCall \<and>
   LoadLocation demoEnv ''Asia/Shanghai'' = Inr (Location ''Asia/Shanghai'') \<and>
   NewProgressBar demoEnv 0 ''index'' 100 40 [WithTimeZone ''UTC'', nilOption] =
     Inl NilFunctionCall"
  by (simp add: NewProgressBar_def nilOption_def WithTimeZone_def demoEnv_def)

text \<open>
  C8, amended. \<^verbatim>\<open>NewProgressBar\<close> panics exactly when the call of one of its options
  panics, as the call of a nil option does. When the options are options of the package,
  it does not panic; it returns an error, and no bar, exactly when \<^verbatim>\<open>time.LoadLocation\<close>
  fails on the configured zone name, which is the argument of the last \<^verbatim>\<open>WithTimeZone\<close>
  among the options and "Asia/Shanghai" when there is none, and the error is the one
  \<^verbatim>\<open>LoadLocation\<close> returned; it returns a bar and a nil error exactly when that name
  resolves.
\<close>

theorem NewProgressBar_fails_exactly_on_zone:
  "(NewProgressBar e now nm tot len opts = Inl f) =
     (applyOpts (defaultBar e nm tot len) opts = Inl f) \<and>
   (NewProgressBar e now nm tot len opts = Inl f \<longrightarrow>
      (\<exists>opt\<in>set opts. \<exists>pb'. opt pb' = Inl f)) \<and>
   NewProgressBar e now nm tot len (map optionOf specs) \<noteq> Inl f \<and>
   (NewProgressBar e now nm tot len (map optionOf specs) = Inr (Inl err)) =
     (LoadLocation e (lastOr ''Asia/Shanghai'' (zones specs)) = Inl err) \<and>
   (\<exists>pb. NewProgressBar e now nm tot len (map optionOf specs) = Inr (Inr pb)) =
     (\<exists>loc. LoadLocation e (lastOr ''Asia/Shanghai'' (zones specs)) = Inr loc)"
proof -
  have a: "(NewProgressBar e now nm tot len opts = Inl f) =
     (applyOpts (defaultBar e nm tot len) opts = Inl f)"
    by (auto simp add: NewProgressBar_def split: sum.splits)
  have a': "NewProgressBar e now nm tot len opts = Inl f \<longrightarrow>
      (\<exists>opt\<in>set opts. \<exists>pb'. opt pb' = Inl f)"
    unfolding a using applyOpts_panic [of "defaultBar e nm tot len" opts f] by blast
  have b: "NewProgressBar e now nm tot len (map optionOf specs) \<noteq> Inl f"
    by (simp add: NewProgressBar_specs split: sum.splits)
  have c: "(NewProgressBar e now nm tot len (map optionOf specs) = Inr (Inl err)) =
     (LoadLocation e (lastOr ''Asia/Shanghai'' (zones specs)) = Inl err)"
    by (auto simp add: NewProgressBar_specs split: sum.splits)
  have d: "(\<exists>pb. NewProgressBar e now nm tot len (map optionOf specs) = Inr (Inr pb)) =
     (\<exists>loc. LoadLocation e (lastOr ''Asia/Shanghai'' (zones specs)) = Inr loc)"
    by (auto simp add: NewProgressBar_specs split: sum.splits)
  from a a' b c d show ?thesis by blast
qed

theorem NewProgressBar_fails_exactly_on_zone_witness:
  "NewProgressBar demoEnv 0 ''index'' 100 40 [WithTracking 3, nilOption] = Inl NilFunctionCall \<and>
   applyOpts (defaultBar demoEnv ''index'' 100 40) [WithTracking 3, nilOption] =
     Inl NilFunctionCall \<and>
   NewProgressBar demoEnv 0 ''index'' 100 40
     (map optionOf [TimeZone ''UTC'', Tracking 3, TimeZone ''Mars/Phobos'']) =
     Inr (Inl ''unknown time zone Mars/Phobos'') \<and>
   (\<exists>pb. NewProgressBar demoEnv 0 ''index'' 100 40
           (map optionOf [TimeZone ''Mars/Phobos'', Tracking 3, TimeZone ''UTC'']) = Inr (Inr pb))"
  using NewProgressBar_fails_exactly_on_zone
          [of demoEnv 0 "''index''" 100 40 "[WithTracking 3, nilOption]" NilFunctionCall
              "[TimeZone ''UTC'', Tracking 3, TimeZone ''Mars/Phobos'']"
              "''unknown time zone Mars/Phobos''"]
        NewProgressBar_fails_exactly_on_zone
          [of demoEnv 0 "''index''" 100 40 "[WithTracking 3, nilOption]" NilFunctionCall
              "[TimeZone ''Mars/Phobos'', Tracking 3, TimeZone ''UTC'']"]
  by (simp add: zones_def lastOr_def demoEnv_def WithTracking_def nilOption_def)

subsection \<open>C9: \<^verbatim>\<open>Report\<close> writes no field\<close>

text \<open>
  C9. \<^verbatim>\<open>Report\<close> assigns no field: the bar after the call is the bar before it, field by
  field, whether the call returns the error or the table. With the widths added as
  integers (see the conventions above) the call returns for every bar and every width, as
  no \<^verbatim>\<open>strings.Repeat\<close> gets a negative count.
\<close>

theorem Report_changes_no_field:
  "\<exists>err out. Report e w pb = Inr (err, out, pb)"
  by (rule Report_returns)

subsection \<open>C10: defaults and options\<close>

text \<open>
  C10. With no option (and the default zone resolving) the bar has precision 2, zone name
  "Asia/Shanghai", update interval 1000 and the colour \<^verbatim>\<open>BrightCyan\<close>. With any list of
  options of the package (and the configured zone resolving), each of the four settings
  is the last value that an option of the list gives for it, and the default when no
  option of the list does; every other field is as without options.
\<close>

theorem NewProgressBar_defaults_and_options:
  assumes "LoadLocation e ''Asia/Shanghai'' = Inr loc0"
    and "LoadLocation e (lastOr ''Asia/Shanghai'' (zones specs)) = Inr loc"
  shows "NewProgressBar e now nm tot len [] =
           Inr (Inr \<lparr>name = nm, total_bar = tot, barLength = len,
                 precision = 2, currentProcess = 0, lastFilledLength = 0,
                 timezone = ''Asia/Shanghai'', location = Some loc0,
                 startTime = \<lparr>instant = now, zone = Some loc0\<rparr>,
                 endTime = zeroTime, complete_bar = False,
                 updateInterval = 1000, ticker = Some (now + 1000000000),
                 barColor = BrightCyan e, resetColor = Reset e,
                 printChannel = Chan [] False, finishBar = Chan [] False\<rparr>) \<and>
         NewProgressBar e now nm tot len (map optionOf specs) =
           Inr (Inr \<lparr>name = nm, total_bar = tot, barLength = len,
                 precision = lastOr 2 (trackings specs),
                 currentProcess = 0, lastFilledLength = 0,
                 timezone = lastOr ''Asia/Shanghai'' (zones specs),
                 location = Some loc,
                 startTime = \<lparr>instant = now, zone = Some loc\<rparr>,
                 endTime = zeroTime, complete_bar = False,
                 updateInterval = lastOr 1000 (intervals specs),
                 ticker = (if 0 < lastOr 1000 (intervals specs)
                           then Some (timeAfter now (lastOr 1000 (intervals specs)))
                           else None),
                 barColor = lastOr (BrightCyan e) (colours specs),
                 resetColor = Reset e,
                 printChannel = Chan [] False, finishBar = Chan [] False\<rparr>)"
proof -
  have "NewProgressBar e now nm tot len (map optionOf []) =
           Inr (Inr \<lparr>name = nm, total_bar = tot, barLength = len,
                 precision = 2, currentProcess = 0, lastFilledLength = 0,
                 timezone = ''Asia/Shanghai'', location = Some loc0,
                 startTime = \<lparr>instant = now, zone = Some loc0\<rparr>,
                 endTime = zeroTime, complete_bar = False,
                 updateInterval = 1000, ticker = Some (now + 1000000000),
                 barColor = BrightCyan e, resetColor = Reset e,
                 printChannel = Chan [] False, finishBar = Chan [] False\<rparr>)"
    unfolding NewProgressBar_specs using assms(1)
    by (simp add: trackings_def zones_def intervals_def colours_def lastOr_def
        timeAfter_def wrap64_def)
  moreover have "NewProgressBar e now nm tot len (map optionOf specs) =
           Inr (Inr \<lparr>name = nm, total_bar = tot, barLength = len,
                 precision = lastOr 2 (trackings specs),
                 currentProcess = 0, lastFilledLength = 0,
                 timezone = lastOr ''Asia/Shanghai'' (zones specs),
                 location = Some loc,
                 startTime = \<lparr>instant = now, zone = Some loc\<rparr>,
                 endTime = zeroTime, complete_bar = False,
                 updateInterval = lastOr 1000 (intervals specs),
                 ticker = (if 0 < lastOr 1000 (intervals specs)
                           then Some (timeAfter now (lastOr 1000 (intervals specs)))
                           else None),
                 barColor = lastOr (BrightCyan e) (colours specs),
                 resetColor = Reset e,
                 printChannel = Chan [] False, finishBar = Chan [] False\<rparr>)"
    unfolding NewProgressBar_specs using assms(2) by simp
  ultimately show ?thesis by simp
qed

theorem NewProgressBar_defaults_and_options_witness:
  "map_sum id (map_sum id (\<lambda>pb. (precision pb, timezone pb, updateInterval pb, barColor pb)))
     (NewProgressBar demoEnv 0 ''index'' 100 40 []) =
       Inr (Inr (2, ''Asia/Shanghai'', 1000, ''[96m'')) \<and>
   map_sum id (map_sum id (\<lambda>pb. (precision pb, timezone pb, updateInterval pb, barColor pb,
                                   ticker pb)))
     (NewProgressBar demoEnv 0 ''index'' 100 40
        (map optionOf [Tracking 4, Display ''[31m'', TimeControl 250, Tracking 5,
                       TimeZone ''UTC'', Display ''[32m''])) =
       Inr (Inr (5, ''UTC'', 250, ''[32m'', Some 250000000))"
  using NewProgressBar_defaults_and_options
          [of demoEnv "Location ''Asia/Shanghai''"
              "[Tracking 4, Display ''[31m'', TimeControl 250, Tracking 5,
                TimeZone ''UTC'', Display ''[32m'']"
              "Location ''UTC''" 0 "''index''" 100 40]
  by (simp add: demoEnv_def trackings_def zones_def intervals_def colours_def lastOr_def
      timeAfter_def wrap64_def)

end
